theory Spec2Isabelle
  imports Main
begin

section \<open>ScheduledEvent (src/lib/structures/ScheduledEvent.js)\<close>

subsection \<open>Time values and configuration\<close>

text \<open>
  A Moment is an instant (milliseconds since the UNIX epoch) together with the zone it is
  anchored in. \<open>valueOf = None\<close> is an invalid Moment, whose value is NaN. \<open>zone = None\<close>
  is a Moment that no zone anchors (no default zone is set anywhere in the class).
\<close>

record Moment =
  valueOf :: "int option"
  zone :: "string option"

text \<open>The range of a JavaScript Date: 8.64e15 milliseconds on either side of the epoch.\<close>

definition max_time_ms :: int where
  "max_time_ms = 8640000000000000"

text \<open>
  \<open>moment.unix(t)\<close>: \<open>t\<close> is in seconds. Outside the range of a Date the Moment is
  invalid.
\<close>

definition moment_unix :: "int \<Rightarrow> Moment" where
  "moment_unix t =
     \<lparr>valueOf = (if \<bar>t * 1000\<bar> \<le> max_time_ms then Some (t * 1000) else None),
      zone = None\<rparr>"

text \<open>
  What a field or an expression of the class can hold where a Moment is expected: \<open>null\<close>,
  \<open>undefined\<close>, a string, or a Moment.
\<close>

datatype js_value = Null | Undefined | Str string | Object Moment

text \<open>
  The zone data of moment-timezone, a parameter: \<open>zones name\<close> is the name of the zone
  the data holds for \<open>name\<close>, if it holds one.
\<close>

type_synonym zone_data = "string \<Rightarrow> string option"

text \<open>
  \<open>m.tz(name)\<close>. With a name that is not empty it is a setter and returns the Moment: the
  same instant, its zone now the one the data holds for the name, and none when the data
  does not know the name. With the empty name (falsy) it is a getter: the name of the
  Moment's zone, or \<open>undefined\<close> when it has none.
\<close>

definition tz :: "zone_data \<Rightarrow> Moment \<Rightarrow> string \<Rightarrow> js_value" where
  "tz zones m zname =
     (if zname \<noteq> [] then Object (m\<lparr>zone := zones zname\<rparr>)
      else
        (case zone m of
           Some z \<Rightarrow> Str z
         | None \<Rightarrow> Undefined))"

text \<open>
  \<open>m.diff(other)\<close> with no unit: the difference of the two instants in milliseconds.
  The argument is either another Moment or a number of milliseconds; both are given
  here by their millisecond value. The result is NaN (\<open>None\<close>) when \<open>m\<close> is invalid or
  the argument lies outside the range of a Date.
\<close>

definition diff :: "Moment \<Rightarrow> int \<Rightarrow> int option" where
  "diff m other =
     (case valueOf m of
        None \<Rightarrow> None
      | Some v \<Rightarrow> if \<bar>other\<bar> \<le> max_time_ms then Some (v - other) else None)"

text \<open>\<open>x > y\<close> on numbers: false when \<open>x\<close> is NaN.\<close>

definition js_gt :: "int option \<Rightarrow> int \<Rightarrow> bool" where
  "js_gt x y = (case x of None \<Rightarrow> False | Some v \<Rightarrow> v > y)"

text \<open>
  The two entries of config.js the class reads. config.js lies outside this development,
  so the configuration is a parameter of every function that reads it. The margin is a
  whole number of milliseconds.
\<close>

record config =
  default_timezone :: string
  happening_margin :: int

subsection \<open>The class and its constructor\<close>

record ScheduledEvent =
  id_ev :: int
  name :: string
  time :: js_value
  limit :: int
  instant :: bool

text \<open>
  \<open>constructor(id, name, time, limit, instant = false)\<close>. The last argument may be left
  out (\<open>None\<close>) and is then \<open>false\<close>; the first two arguments here are the zone data and
  the configuration that \<open>cfg.default_timezone\<close> is read from.
\<close>

definition new_ScheduledEvent ::
  "zone_data \<Rightarrow> config \<Rightarrow> int \<Rightarrow> string \<Rightarrow> int \<Rightarrow> int \<Rightarrow> bool option \<Rightarrow> ScheduledEvent" where
  "new_ScheduledEvent zones cfg i n t l instant_arg =
     (let inst = (case instant_arg of None \<Rightarrow> False | Some b \<Rightarrow> b)
      in \<lparr>id_ev = i,
          name = n,
          time = (if \<not> inst then tz zones (moment_unix t) (default_timezone cfg) else Null),
          limit = l,
          instant = inst\<rparr>)"

subsection \<open>getStatus\<close>

datatype js_error = TypeError

text \<open>
  The method reads the clock twice (\<open>moment()\<close> in each comparison); \<open>now1\<close> and
  \<open>now2\<close> are the two readings in milliseconds. Calling \<open>diff\<close> on a \<open>time\<close> that is
  not a Moment (\<open>null\<close>, \<open>undefined\<close>, a string) throws a TypeError.
\<close>

definition getStatus :: "config \<Rightarrow> ScheduledEvent \<Rightarrow> int \<Rightarrow> int \<Rightarrow> js_error + string" where
  "getStatus cfg this now1 now2 =
     (if instant this then Inr ''expired''
      else case time this of
        Object t \<Rightarrow>
          if js_gt (diff t now1) 0 then Inr ''pending''
          else if js_gt (diff t (now2 - happening_margin cfg)) 0 then Inr ''happening''
          else Inr ''expired''
      | _ \<Rightarrow> Inl TypeError)"

subsection \<open>Promises\<close>

text \<open>
  The eventual state of a promise: fulfilled with a value, rejected with a reason, or
  never settled (\<open>Pending\<close>).
\<close>

datatype ('e, 'a) promise =
  is_Fulfilled: Fulfilled 'a
| is_Rejected: Rejected 'e
| is_Pending: Pending

text \<open>
  \<open>Promise.all([p1, p2])\<close>. The aggregate keeps one slot per input and its own state.
  It looks at the input promises as they settle: a fulfilment fills the slot and, when
  both slots are full, fulfils the aggregate with the two values; a rejection rejects the
  aggregate. A promise settles once, so nothing changes an aggregate that is no longer
  pending, and an input that never settles is never observed.
\<close>

record ('e, 'a, 'b) all_state =
  slot1 :: "'a option"
  slot2 :: "'b option"
  aggregate :: "('e, 'a \<times> 'b) promise"

datatype ('e, 'a, 'b) settlement = Settle1 "('e, 'a) promise" | Settle2 "('e, 'b) promise"

fun observe :: "('e, 'a, 'b) all_state \<Rightarrow> ('e, 'a, 'b) settlement \<Rightarrow> ('e, 'a, 'b) all_state" where
  "observe st (Settle1 Pending) = st"
| "observe st (Settle2 Pending) = st"
| "observe st (Settle1 (Rejected e)) =
     (case aggregate st of Pending \<Rightarrow> st\<lparr>aggregate := Rejected e\<rparr> | _ \<Rightarrow> st)"
| "observe st (Settle2 (Rejected e)) =
     (case aggregate st of Pending \<Rightarrow> st\<lparr>aggregate := Rejected e\<rparr> | _ \<Rightarrow> st)"
| "observe st (Settle1 (Fulfilled a)) =
     (case aggregate st of
        Pending \<Rightarrow>
          (case slot2 st of
             None \<Rightarrow> st\<lparr>slot1 := Some a\<rparr>
           | Some b \<Rightarrow> st\<lparr>slot1 := Some a, aggregate := Fulfilled (a, b)\<rparr>)
      | _ \<Rightarrow> st)"
| "observe st (Settle2 (Fulfilled b)) =
     (case aggregate st of
        Pending \<Rightarrow>
          (case slot1 st of
             None \<Rightarrow> st\<lparr>slot2 := Some b\<rparr>
           | Some a \<Rightarrow> st\<lparr>slot2 := Some b, aggregate := Fulfilled (a, b)\<rparr>)
      | _ \<Rightarrow> st)"

text \<open>
  Which of two operations in flight comes first. The code fixes no order between them, so
  the order is a parameter.
\<close>

datatype order = FirstThenSecond | SecondThenFirst

definition Promise_all ::
  "order \<Rightarrow> ('e, 'a) promise \<Rightarrow> ('e, 'b) promise \<Rightarrow> ('e, 'a \<times> 'b) promise" where
  "Promise_all ord p1 p2 =
     aggregate
       (foldl observe \<lparr>slot1 = None, slot2 = None, aggregate = Pending\<rparr>
          (case ord of
             FirstThenSecond \<Rightarrow> [Settle1 p1, Settle2 p2]
           | SecondThenFirst \<Rightarrow> [Settle2 p2, Settle1 p1]))"

subsection \<open>The database handler\<close>

text \<open>
  The four operations of \<open>db\<close> (dbhandler/core.js) that getConfirms and deleteEvent
  call. The handler lies outside this development, so it is a parameter: each
  operation is a function of the store \<open>'db\<close>; a read gives the eventual state of the
  promise it returns, a deletion gives that and the store it leaves. \<open>None\<close> as a read's
  value is the JavaScript \<open>null\<close> (no rows, no waiting list).
\<close>

record ConfirmRecord =
  event :: int
  user :: string
  attends :: bool

record ('db, 'e) dbhandler =
  confirms_getByEvent :: "ScheduledEvent \<Rightarrow> 'db \<Rightarrow> ('e, ConfirmRecord list option) promise"
  events_getWaiting :: "ScheduledEvent \<Rightarrow> 'db \<Rightarrow> ('e, string list option) promise"
  events_deleteEvent :: "int \<Rightarrow> 'db \<Rightarrow> ('e, unit) promise \<times> 'db"
  confirms_deleteByEvent :: "int \<Rightarrow> 'db \<Rightarrow> ('e, unit) promise \<times> 'db"

subsection \<open>getConfirms\<close>

record people =
  confirmed :: "string list"
  rejected :: "string list"
  waiting :: "string list"

text \<open>
  The \<open>for\<close> loop of the callback: \<open>i\<close> is the loop index, \<open>cfd\<close> and \<open>rjd\<close> are the
  arrays \<open>confirmed\<close> and \<open>rejected\<close>, and \<open>push\<close> appends at the end.
\<close>

function getConfirms_loop ::
  "ConfirmRecord list \<Rightarrow> nat \<Rightarrow> string list \<Rightarrow> string list \<Rightarrow> string list \<times> string list" where
  "getConfirms_loop confirms i cfd rjd =
     (if i < length confirms then
        (if attends (confirms ! i)
         then getConfirms_loop confirms (i + 1) (cfd @ [user (confirms ! i)]) rjd
         else getConfirms_loop confirms (i + 1) cfd (rjd @ [user (confirms ! i)]))
      else (cfd, rjd))"
  by pat_completeness auto
termination
  by (relation "measure (\<lambda>(confirms, i, cfd, rjd). length confirms - i)") auto

declare getConfirms_loop.simps [simp del]

text \<open>The callback given to \<open>then\<close>: \<open>vals\<close> is the pair of values of the two reads.\<close>

definition getConfirms_then :: "ConfirmRecord list option \<times> string list option \<Rightarrow> people" where
  "getConfirms_then vals =
     (let confirms = fst vals;
          waitingv = snd vals;
          (cfd, rjd) = (case confirms of
                          None \<Rightarrow> ([], [])
                        | Some cs \<Rightarrow> getConfirms_loop cs 0 [] [])
      in \<lparr>confirmed = cfd, rejected = rjd,
          waiting = (case waitingv of None \<Rightarrow> [] | Some w \<Rightarrow> w)\<rparr>)"

text \<open>
  getConfirms: both reads are issued, the callback runs on the values of
  \<open>Promise.all\<close>, and \<open>catch(reject)\<close> passes a rejection on. \<open>ord\<close> is the order in
  which the two reads settle.
\<close>

definition getConfirms ::
  "('db, 'e) dbhandler \<Rightarrow> order \<Rightarrow> ScheduledEvent \<Rightarrow> 'db \<Rightarrow> ('e, people) promise" where
  "getConfirms db ord this s =
     (let getConfirmsPromise = confirms_getByEvent db this s;
          getWaitingPromise = events_getWaiting db this s
      in case Promise_all ord getConfirmsPromise getWaitingPromise of
           Fulfilled vals \<Rightarrow> Fulfilled (getConfirms_then vals)
         | Rejected err \<Rightarrow> Rejected err
         | Pending \<Rightarrow> Pending)"

subsection \<open>deleteEvent\<close>

text \<open>
  Both deletions are issued, whatever the other one does. \<open>eff\<close> is the order in which
  they reach the store, \<open>ord\<close> the order in which their promises settle. \<open>then(fulfill)\<close>
  fulfils with the values of \<open>Promise.all\<close>, \<open>catch(reject)\<close> passes a rejection on.
  The second component is the store once both deletions have run.
\<close>

definition deleteEvent ::
  "('db, 'e) dbhandler \<Rightarrow> order \<Rightarrow> order \<Rightarrow> ScheduledEvent \<Rightarrow> 'db
     \<Rightarrow> ('e, unit \<times> unit) promise \<times> 'db" where
  "deleteEvent db eff ord this s =
     (case eff of
        FirstThenSecond \<Rightarrow>
          (let (deleteEventPromise, s1) = events_deleteEvent db (id_ev this) s;
               (deleteConfirmsPromise, s2) = confirms_deleteByEvent db (id_ev this) s1
           in (Promise_all ord deleteEventPromise deleteConfirmsPromise, s2))
      | SecondThenFirst \<Rightarrow>
          (let (deleteConfirmsPromise, s1) = confirms_deleteByEvent db (id_ev this) s;
               (deleteEventPromise, s2) = events_deleteEvent db (id_ev this) s1
           in (Promise_all ord deleteEventPromise deleteConfirmsPromise, s2)))"

subsection \<open>The other methods\<close>

text \<open>
  The other five operations of \<open>db.events\<close> the class calls, parameters like the four
  above. A message id is a string; the lobby status \<open>'l\<close> and the inhouse properties \<open>'p\<close>
  are whatever the handler makes them.
\<close>

record ('db, 'e, 'l, 'p) dbhandler_events =
  events_getSummaryMsgId :: "int \<Rightarrow> 'db \<Rightarrow> ('e, string) promise"
  events_updateSummaryMsgId :: "int \<Rightarrow> string \<Rightarrow> 'db \<Rightarrow> ('e, unit) promise \<times> 'db"
  events_getLobbyStatus :: "ScheduledEvent \<Rightarrow> 'db \<Rightarrow> ('e, 'l) promise"
  events_updateLobbyStatus :: "ScheduledEvent \<Rightarrow> 'l \<Rightarrow> 'db \<Rightarrow> ('e, unit) promise \<times> 'db"
  events_getInhouse :: "ScheduledEvent \<Rightarrow> 'db \<Rightarrow> ('e, 'p) promise"

text \<open>getMsgId: \<open>then(id => fulfill(id), err => reject(err))\<close> on the handler's promise.\<close>

definition getMsgId ::
  "('db, 'e, 'l, 'p) dbhandler_events \<Rightarrow> ScheduledEvent \<Rightarrow> 'db \<Rightarrow> ('e, string) promise" where
  "getMsgId dbe this s =
     (case events_getSummaryMsgId dbe (id_ev this) s of
        Fulfilled i \<Rightarrow> Fulfilled i
      | Rejected err \<Rightarrow> Rejected err
      | Pending \<Rightarrow> Pending)"

text \<open>getLobbyStatus returns the handler's promise.\<close>

definition getLobbyStatus ::
  "('db, 'e, 'l, 'p) dbhandler_events \<Rightarrow> ScheduledEvent \<Rightarrow> 'db \<Rightarrow> ('e, 'l) promise" where
  "getLobbyStatus dbe this s = events_getLobbyStatus dbe this s"



text \<open>getInhouseProperties returns the handler's promise.\<close>

definition getInhouseProperties ::
  "('db, 'e, 'l, 'p) dbhandler_events \<Rightarrow> ScheduledEvent \<Rightarrow> 'db \<Rightarrow> ('e, 'p) promise" where
  "getInhouseProperties dbe this s = events_getInhouse dbe this s"

subsection \<open>An event in use\<close>




subsection \<open>The first rejection, as the specification words it\<close>

text \<open>
  The rejection that is observed first when the two promises settle in the order \<open>ord\<close>:
  the reason of the earlier promise if that one is rejected, else the reason of the later
  one if that one is rejected, else none. This definition follows the specification's
  wording and is compared with \<open>Promise_all\<close> below.
\<close>

definition first_rejection :: "order \<Rightarrow> ('e, 'a) promise \<Rightarrow> ('e, 'b) promise \<Rightarrow> 'e option" where
  "first_rejection ord p1 p2 =
     (case ord of
        FirstThenSecond \<Rightarrow>
          (case p1 of
             Rejected e \<Rightarrow> Some e
           | _ \<Rightarrow> (case p2 of Rejected e \<Rightarrow> Some e | _ \<Rightarrow> None))
      | SecondThenFirst \<Rightarrow>
          (case p2 of
             Rejected e \<Rightarrow> Some e
           | _ \<Rightarrow> (case p1 of Rejected e \<Rightarrow> Some e | _ \<Rightarrow> None)))"

subsection \<open>An in-memory store for concrete scenarios\<close>

text \<open>
  Modelled from the spec: the store behind \<open>db\<close> (EventStore and ConfirmStore in sections
  2 and 6 of the specification) is missing from the sources. This one keeps the ids of
  the stored events, a waiting list per event id and the ConfirmRecords.
\<close>

record store =
  event_rows :: "int list"
  waiting_rows :: "(int \<times> string list) list"
  confirm_rows :: "ConfirmRecord list"

text \<open>
  Modelled from the spec: a handler over the in-memory store, standing in for the missing
  dbhandler/core.js. Each side can be switched to fail: \<open>events_down\<close> makes every
  EventStore operation reject and leave the store alone, \<open>confirms_down\<close> does the same
  for the ConfirmStore. A read that finds nothing gives null.
\<close>

definition memory_db :: "bool \<Rightarrow> bool \<Rightarrow> (store, string) dbhandler" where
  "memory_db events_down confirms_down =
     \<lparr>confirms_getByEvent = (\<lambda>ev s.
        if confirms_down then Rejected ''confirms: unavailable''
        else Fulfilled (case filter (\<lambda>r. event r = id_ev ev) (confirm_rows s) of
                          [] \<Rightarrow> None
                        | r # rs \<Rightarrow> Some (r # rs))),
      events_getWaiting = (\<lambda>ev s.
        if events_down then Rejected ''events: unavailable''
        else Fulfilled (map_of (waiting_rows s) (id_ev ev))),
      events_deleteEvent = (\<lambda>i s.
        if events_down then (Rejected ''events: unavailable'', s)
        else (Fulfilled (),
              s\<lparr>event_rows := removeAll i (event_rows s),
                waiting_rows := filter (\<lambda>row. fst row \<noteq> i) (waiting_rows s)\<rparr>)),
      confirms_deleteByEvent = (\<lambda>i s.
        if confirms_down then (Rejected ''confirms: unavailable'', s)
        else (Fulfilled (),
              s\<lparr>confirm_rows := filter (\<lambda>r. event r \<noteq> i) (confirm_rows s)\<rparr>))\<rparr>"

text \<open>Sample data: a margin of five minutes, and event 4 with three answers on record.\<close>

definition sample_cfg :: config where
  "sample_cfg = \<lparr>default_timezone = ''UTC'', happening_margin = 300000\<rparr>"

text \<open>Zone data that knows two names.\<close>

definition sample_zones :: zone_data where
  "sample_zones zname =
     (if zname = ''UTC'' \<or> zname = ''Europe/Madrid'' then Some zname else None)"

definition sample_event :: ScheduledEvent where
  "sample_event = new_ScheduledEvent sample_zones sample_cfg 4 ''raid'' 100 10 None"

definition sample_store :: store where
  "sample_store =
     \<lparr>event_rows = [4, 5],
      waiting_rows = [(4, [''dave'', ''erin''])],
      confirm_rows =
        [\<lparr>event = 4, user = ''alice'', attends = True\<rparr>,
         \<lparr>event = 4, user = ''bob'', attends = False\<rparr>,
         \<lparr>event = 5, user = ''zed'', attends = True\<rparr>,
         \<lparr>event = 4, user = ''carol'', attends = True\<rparr>]\<rparr>"

text \<open>The same store, with alice (who has confirmed) also on the waiting list of event 4.\<close>

definition overlap_store :: store where
  "overlap_store = sample_store\<lparr>waiting_rows := [(4, [''alice'', ''dave''])]\<rparr>"



text \<open>Event 4 with carol on record twice, around alice.\<close>

definition repeat_store :: store where
  "repeat_store =
     sample_store\<lparr>confirm_rows :=
        [\<lparr>event = 4, user = ''carol'', attends = True\<rparr>,
         \<lparr>event = 4, user = ''bob'', attends = False\<rparr>,
         \<lparr>event = 4, user = ''alice'', attends = True\<rparr>,
         \<lparr>event = 4, user = ''carol'', attends = True\<rparr>]\<rparr>"

subsection \<open>Disjointness of a view\<close>

text \<open>The three lists of a view, read as sets, have no user id in common.\<close>

definition pairwise_disjoint :: "people \<Rightarrow> bool" where
  "pairwise_disjoint v \<longleftrightarrow>
     set (confirmed v) \<inter> set (rejected v) = {} \<and>
     set (confirmed v) \<inter> set (waiting v) = {} \<and>
     set (rejected v) \<inter> set (waiting v) = {}"

section \<open>Properties\<close>

lemmas sample_defs = memory_db_def sample_event_def sample_store_def overlap_store_def
  repeat_store_def new_ScheduledEvent_def

subsection \<open>Promise.all and the loop\<close>

lemma Promise_all_Fulfilled: "Promise_all ord (Fulfilled a) (Fulfilled b) = Fulfilled (a, b)"
  by (cases ord) (simp_all add: Promise_all_def)

lemma Promise_all_is_Fulfilled:
  "is_Fulfilled (Promise_all ord p1 p2) \<longleftrightarrow> is_Fulfilled p1 \<and> is_Fulfilled p2"
  by (cases ord; cases p1; cases p2) (simp_all add: Promise_all_def)

lemma Promise_all_is_Rejected:
  "is_Rejected (Promise_all ord p1 p2) \<longleftrightarrow> is_Rejected p1 \<or> is_Rejected p2"
  by (cases ord; cases p1; cases p2) (simp_all add: Promise_all_def)

text \<open>\<open>Promise.all\<close> rejects with the first rejection, in the specification's sense.\<close>

lemma Promise_all_Rejected_iff:
  "Promise_all ord p1 p2 = Rejected e \<longleftrightarrow> first_rejection ord p1 p2 = Some e"
  by (cases ord; cases p1; cases p2) (simp_all add: Promise_all_def first_rejection_def)

text \<open>
  The loop, started at index \<open>i\<close>, appends to each array the users of the matching records
  from \<open>i\<close> on, in their order.
\<close>

lemma getConfirms_loop_drop:
  "getConfirms_loop cs i cfd rjd =
     (cfd @ map user (filter attends (drop i cs)),
      rjd @ map user (filter (\<lambda>r. \<not> attends r) (drop i cs)))"
proof (induction cs i cfd rjd rule: getConfirms_loop.induct)
  case (1 confirms i cfd rjd)
  show ?case
  proof (cases "i < length confirms")
    case False
    then show ?thesis by (subst getConfirms_loop.simps) simp
  next
    case True
    then have d: "drop i confirms = confirms ! i # drop (Suc i) confirms"
      by (simp add: Cons_nth_drop_Suc)
    show ?thesis
    proof (cases "attends (confirms ! i)")
      case True
      with \<open>i < length confirms\<close> "1.IH"(1) d show ?thesis
        by (subst getConfirms_loop.simps) simp
    next
      case False
      with \<open>i < length confirms\<close> "1.IH"(2) d show ?thesis
        by (subst getConfirms_loop.simps) simp
    qed
  qed
qed

lemma getConfirms_then_Some:
  "getConfirms_then (Some cs, wo) =
     \<lparr>confirmed = map user (filter attends cs),
      rejected = map user (filter (\<lambda>r. \<not> attends r) cs),
      waiting = (case wo of None \<Rightarrow> [] | Some w \<Rightarrow> w)\<rparr>"
  by (simp add: getConfirms_then_def getConfirms_loop_drop)

lemma getConfirms_then_None:
  "getConfirms_then (None, wo) =
     \<lparr>confirmed = [], rejected = [], waiting = (case wo of None \<Rightarrow> [] | Some w \<Rightarrow> w)\<rparr>"
  by (simp add: getConfirms_then_def)

text \<open>When both reads are fulfilled, getConfirms is fulfilled with the callback's view.\<close>

lemma getConfirms_Fulfilled:
  "confirms_getByEvent db this s = Fulfilled cso \<Longrightarrow> events_getWaiting db this s = Fulfilled wo
   \<Longrightarrow> getConfirms db ord this s = Fulfilled (getConfirms_then (cso, wo))"
  by (simp add: getConfirms_def Promise_all_Fulfilled)

subsection \<open>getStatus\<close>

text \<open>
  C4. Every event with \<open>instant\<close> true has status "expired", whatever the two clock
  readings and whatever the configured margin.
\<close>

theorem getStatus_instant_expired:
  "instant this \<Longrightarrow> getStatus cfg this now1 now2 = Inr ''expired''"
  by (simp add: getStatus_def)

theorem getStatus_instant_expired_witness:
  "instant (new_ScheduledEvent sample_zones sample_cfg 7 ''scrim'' 1500000000 10 (Some True))
   \<and> getStatus sample_cfg
        (new_ScheduledEvent sample_zones sample_cfg 7 ''scrim'' 1500000000 10 (Some True))
        1500000000000 1500000000001 = Inr ''expired''"
  using getStatus_instant_expired
    [of "new_ScheduledEvent sample_zones sample_cfg 7 ''scrim'' 1500000000 10 (Some True)"
        sample_cfg 1500000000000 1500000000001]
  by (simp add: new_ScheduledEvent_def)

text \<open>
  Between the scheduled time (included) and the scheduled time plus the margin (excluded),
  a non-instant event with a valid time is happening, and nowhere else, when both clock
  readings agree and lie, as does the reading less the margin, in the range of a Date.
\<close>

lemma getStatus_happening_window:
  "\<not> instant this \<Longrightarrow> time this = Object t \<Longrightarrow> valueOf t = Some v \<Longrightarrow>
   \<bar>now\<bar> \<le> max_time_ms \<Longrightarrow> \<bar>now - happening_margin cfg\<bar> \<le> max_time_ms \<Longrightarrow>
   getStatus cfg this now now = Inr ''happening''
     \<longleftrightarrow> v \<le> now \<and> now < v + happening_margin cfg"
  by (auto simp add: getStatus_def diff_def js_gt_def)

text \<open>
  At the upper boundary itself, \<open>now = scheduledTime + margin\<close>, a constructed event is
  never happening: the second test of getStatus is the strict \<open>0 > 0\<close> there.
\<close>

lemma getStatus_at_margin_not_happening:
  "getStatus cfg (new_ScheduledEvent zones cfg i n t l instant_arg)
     (t * 1000 + happening_margin cfg) (t * 1000 + happening_margin cfg) \<noteq> Inr ''happening''"
  by (cases instant_arg)
    (auto simp add: getStatus_def new_ScheduledEvent_def tz_def moment_unix_def diff_def
      js_gt_def split: option.splits if_splits)

text \<open>
  C1. The claim: a non-instant event is "happening" for every \<open>now\<close> with
  \<open>scheduledTime \<le> now \<le> scheduledTime + margin\<close>, the upper boundary included. The code
  at that boundary: the sample event is scheduled at 100 s (100000 ms), the margin is
  300000 ms, and at \<open>now = 400000\<close> getStatus answers "expired", not "happening".
\<close>

theorem getStatus_at_margin_expired:
  "getStatus sample_cfg sample_event 400000 400000 = Inr ''expired''"
  by (simp add: getStatus_def sample_event_def sample_cfg_def sample_zones_def
      new_ScheduledEvent_def tz_def moment_unix_def diff_def js_gt_def max_time_ms_def)

subsection \<open>The constructor and the life of an event\<close>








subsection \<open>getConfirms\<close>

text \<open>
  C5. When both reads succeed, \<open>confirmed\<close> holds exactly the users of the records with
  \<open>attends\<close> true and \<open>rejected\<close> exactly the users of the records with \<open>attends\<close> false;
  when the record collection is null or empty, both are empty, and the call succeeds.
\<close>

theorem getConfirms_partitions_by_attends:
  assumes "confirms_getByEvent db this s = Fulfilled cso"
    and "events_getWaiting db this s = Fulfilled wo"
  shows "\<exists>v. getConfirms db ord this s = Fulfilled v \<and>
           (case cso of
              None \<Rightarrow> confirmed v = [] \<and> rejected v = []
            | Some cs \<Rightarrow>
                set (confirmed v) = user ` {r \<in> set cs. attends r} \<and>
                set (rejected v) = user ` {r \<in> set cs. \<not> attends r} \<and>
                (cs = [] \<longrightarrow> confirmed v = [] \<and> rejected v = []))"
proof (cases cso)
  case None
  with assms show ?thesis
    by (simp add: getConfirms_Fulfilled getConfirms_then_None)
next
  case (Some cs)
  with assms have "getConfirms db ord this s = Fulfilled (getConfirms_then (Some cs, wo))"
    by (simp add: getConfirms_Fulfilled)
  moreover have "set (map user (filter attends cs)) = user ` {r \<in> set cs. attends r}"
    by simp
  moreover have "set (map user (filter (\<lambda>r. \<not> attends r) cs)) = user ` {r \<in> set cs. \<not> attends r}"
    by simp
  ultimately show ?thesis
    using Some by (simp add: getConfirms_then_Some)
qed

theorem getConfirms_partitions_by_attends_witness:
  "confirms_getByEvent (memory_db False False) sample_event sample_store
     = Fulfilled (Some [\<lparr>event = 4, user = ''alice'', attends = True\<rparr>,
                        \<lparr>event = 4, user = ''bob'', attends = False\<rparr>,
                        \<lparr>event = 4, user = ''carol'', attends = True\<rparr>])
   \<and> events_getWaiting (memory_db False False) sample_event sample_store
     = Fulfilled (Some [''dave'', ''erin''])
   \<and> (\<exists>v. getConfirms (memory_db False False) SecondThenFirst sample_event sample_store
             = Fulfilled v
          \<and> set (confirmed v) = {''alice'', ''carol''} \<and> set (rejected v) = {''bob''})"
proof -
  have h1: "confirms_getByEvent (memory_db False False) sample_event sample_store
     = Fulfilled (Some [\<lparr>event = 4, user = ''alice'', attends = True\<rparr>,
                        \<lparr>event = 4, user = ''bob'', attends = False\<rparr>,
                        \<lparr>event = 4, user = ''carol'', attends = True\<rparr>])"
    by (simp add: memory_db_def sample_event_def sample_store_def new_ScheduledEvent_def)
  have h2: "events_getWaiting (memory_db False False) sample_event sample_store
     = Fulfilled (Some [''dave'', ''erin''])"
    by (simp add: memory_db_def sample_event_def sample_store_def new_ScheduledEvent_def)
  let ?rows = "[\<lparr>event = 4, user = ''alice'', attends = True\<rparr>,
                \<lparr>event = 4, user = ''bob'', attends = False\<rparr>,
                \<lparr>event = 4, user = ''carol'', attends = True\<rparr>]"
  have "user ` {r \<in> set ?rows. attends r} = set (map user (filter attends ?rows))"
    by (simp only: set_map set_filter)
  then have c: "user ` {r \<in> set ?rows. attends r} = {''alice'', ''carol''}"
    by simp
  have "user ` {r \<in> set ?rows. \<not> attends r} = set (map user (filter (\<lambda>r. \<not> attends r) ?rows))"
    by (simp only: set_map set_filter)
  then have r: "user ` {r \<in> set ?rows. \<not> attends r} = {''bob''}"
    by simp
  from getConfirms_partitions_by_attends [OF h1 h2, of SecondThenFirst]
  have "\<exists>v. getConfirms (memory_db False False) SecondThenFirst sample_event sample_store
             = Fulfilled v
          \<and> set (confirmed v) = {''alice'', ''carol''} \<and> set (rejected v) = {''bob''}"
    by (simp only: option.case c r) blast
  with h1 h2 show ?thesis by blast
qed

text \<open>
  C10. \<open>confirmed\<close> and \<open>rejected\<close> list the users of the matching records in the order
  of the records, one entry per record: each list is the records filtered by \<open>attends\<close>
  and mapped to their users, and together they are as long as the record list.
\<close>

theorem getConfirms_keeps_order_and_duplicates:
  assumes "confirms_getByEvent db this s = Fulfilled (Some cs)"
    and "events_getWaiting db this s = Fulfilled wo"
  shows "\<exists>v. getConfirms db ord this s = Fulfilled v \<and>
           confirmed v = map user (filter attends cs) \<and>
           rejected v = map user (filter (\<lambda>r. \<not> attends r) cs) \<and>
           length (confirmed v) + length (rejected v) = length cs"
proof -
  have "length (filter attends cs) + length (filter (\<lambda>r. \<not> attends r) cs) = length cs"
    by (rule sum_length_filter_compl)
  with assms show ?thesis
    by (simp add: getConfirms_Fulfilled getConfirms_then_Some)
qed

theorem getConfirms_keeps_order_and_duplicates_witness:
  "confirms_getByEvent (memory_db False False) sample_event repeat_store
     = Fulfilled (Some (confirm_rows repeat_store))
   \<and> events_getWaiting (memory_db False False) sample_event repeat_store
     = Fulfilled (Some [''dave'', ''erin''])
   \<and> (\<exists>v. getConfirms (memory_db False False) FirstThenSecond sample_event repeat_store
             = Fulfilled v
          \<and> confirmed v = [''carol'', ''alice'', ''carol'']
          \<and> rejected v = [''bob'']
          \<and> length (confirmed v) + length (rejected v) = length (confirm_rows repeat_store))"
proof -
  have h1: "confirms_getByEvent (memory_db False False) sample_event repeat_store
     = Fulfilled (Some (confirm_rows repeat_store))"
    by (simp add: sample_defs)
  have h2: "events_getWaiting (memory_db False False) sample_event repeat_store
     = Fulfilled (Some [''dave'', ''erin''])"
    by (simp add: sample_defs)
  have c: "map user (filter attends (confirm_rows repeat_store)) = [''carol'', ''alice'', ''carol'']"
    by (simp add: repeat_store_def)
  have r: "map user (filter (\<lambda>r. \<not> attends r) (confirm_rows repeat_store)) = [''bob'']"
    by (simp add: repeat_store_def)
  from getConfirms_keeps_order_and_duplicates [OF h1 h2, of FirstThenSecond]
  have "\<exists>v. getConfirms (memory_db False False) FirstThenSecond sample_event repeat_store
             = Fulfilled v
          \<and> confirmed v = [''carol'', ''alice'', ''carol'']
          \<and> rejected v = [''bob'']
          \<and> length (confirmed v) + length (rejected v) = length (confirm_rows repeat_store)"
    by (simp only: c r)
  with h1 h2 show ?thesis by blast
qed

text \<open>
  C7. When the store has no waiting-list value, getConfirms succeeds with an empty
  \<open>waiting\<close>; when it has no ConfirmRecords either (null or an empty list), all three
  lists of the view are empty.
\<close>

theorem getConfirms_nothing_stored:
  assumes "confirms_getByEvent db this s = Fulfilled cso"
    and "events_getWaiting db this s = Fulfilled None"
  shows "\<exists>v. getConfirms db ord this s = Fulfilled v \<and> waiting v = [] \<and>
           ((cso = None \<or> cso = Some []) \<longrightarrow> v = \<lparr>confirmed = [], rejected = [], waiting = []\<rparr>)"
proof (cases cso)
  case None
  with assms show ?thesis
    by (simp add: getConfirms_Fulfilled getConfirms_then_None)
next
  case (Some cs)
  with assms show ?thesis
    by (auto simp add: getConfirms_Fulfilled getConfirms_then_Some)
qed

theorem getConfirms_nothing_stored_witness:
  "confirms_getByEvent (memory_db False False) (sample_event\<lparr>id_ev := 9\<rparr>) sample_store
     = Fulfilled None
   \<and> events_getWaiting (memory_db False False) (sample_event\<lparr>id_ev := 9\<rparr>) sample_store
     = Fulfilled None
   \<and> (\<exists>v. getConfirms (memory_db False False) FirstThenSecond (sample_event\<lparr>id_ev := 9\<rparr>)
             sample_store = Fulfilled v
          \<and> waiting v = []
          \<and> v = \<lparr>confirmed = [], rejected = [], waiting = []\<rparr>)"
proof -
  have h1: "confirms_getByEvent (memory_db False False) (sample_event\<lparr>id_ev := 9\<rparr>) sample_store
     = Fulfilled None"
    by (simp add: sample_defs)
  have h2: "events_getWaiting (memory_db False False) (sample_event\<lparr>id_ev := 9\<rparr>) sample_store
     = Fulfilled None"
    by (simp add: sample_defs)
  from getConfirms_nothing_stored [OF h1 h2, of FirstThenSecond]
  have "\<exists>v. getConfirms (memory_db False False) FirstThenSecond (sample_event\<lparr>id_ev := 9\<rparr>)
             sample_store = Fulfilled v
          \<and> waiting v = []
          \<and> v = \<lparr>confirmed = [], rejected = [], waiting = []\<rparr>"
    by simp
  with h1 h2 show ?thesis by blast
qed

text \<open>
  C9. When the waiting-list read gives a list, \<open>waiting\<close> is that very list, whatever the
  ConfirmRecords are: no user id is taken out of it.
\<close>

theorem getConfirms_waiting_verbatim:
  assumes "confirms_getByEvent db this s = Fulfilled cso"
    and "events_getWaiting db this s = Fulfilled (Some w)"
  shows "\<exists>v. getConfirms db ord this s = Fulfilled v \<and> waiting v = w"
proof (cases cso)
  case None
  with assms show ?thesis
    by (simp add: getConfirms_Fulfilled getConfirms_then_None)
next
  case (Some cs)
  with assms show ?thesis
    by (simp add: getConfirms_Fulfilled getConfirms_then_Some)
qed

theorem getConfirms_waiting_verbatim_witness:
  "confirms_getByEvent (memory_db False False) sample_event overlap_store
     = Fulfilled (Some [\<lparr>event = 4, user = ''alice'', attends = True\<rparr>,
                        \<lparr>event = 4, user = ''bob'', attends = False\<rparr>,
                        \<lparr>event = 4, user = ''carol'', attends = True\<rparr>])
   \<and> events_getWaiting (memory_db False False) sample_event overlap_store
     = Fulfilled (Some [''alice'', ''dave''])
   \<and> (\<exists>v. getConfirms (memory_db False False) FirstThenSecond sample_event overlap_store
             = Fulfilled v
          \<and> waiting v = [''alice'', ''dave''])"
proof -
  have h1: "confirms_getByEvent (memory_db False False) sample_event overlap_store
     = Fulfilled (Some [\<lparr>event = 4, user = ''alice'', attends = True\<rparr>,
                        \<lparr>event = 4, user = ''bob'', attends = False\<rparr>,
                        \<lparr>event = 4, user = ''carol'', attends = True\<rparr>])"
    by (simp add: sample_defs)
  have h2: "events_getWaiting (memory_db False False) sample_event overlap_store
     = Fulfilled (Some [''alice'', ''dave''])"
    by (simp add: sample_defs)
  from getConfirms_waiting_verbatim [OF h1 h2, of FirstThenSecond] h1 h2
  show ?thesis by blast
qed

text \<open>
  C6. getConfirms rejects exactly when one of the two reads is rejected, and then with
  the first rejection observed; it is fulfilled with a view exactly when both reads are
  fulfilled, so a failing call gives no view. (A read's value is a list of records or
  null, so the callback itself does not throw.)
\<close>

theorem getConfirms_rejects_iff_read_fails:
  "(is_Rejected (getConfirms db ord this s)
      \<longleftrightarrow> is_Rejected (confirms_getByEvent db this s) \<or> is_Rejected (events_getWaiting db this s))
   \<and> (getConfirms db ord this s = Rejected err
      \<longleftrightarrow> first_rejection ord (confirms_getByEvent db this s) (events_getWaiting db this s)
            = Some err)
   \<and> (is_Fulfilled (getConfirms db ord this s)
      \<longleftrightarrow> is_Fulfilled (confirms_getByEvent db this s)
          \<and> is_Fulfilled (events_getWaiting db this s))"
proof -
  let ?p = "Promise_all ord (confirms_getByEvent db this s) (events_getWaiting db this s)"
  have g: "getConfirms db ord this s =
             (case ?p of Fulfilled vals \<Rightarrow> Fulfilled (getConfirms_then vals)
              | Rejected e \<Rightarrow> Rejected e | Pending \<Rightarrow> Pending)"
    by (simp add: getConfirms_def)
  have r: "is_Rejected (getConfirms db ord this s) \<longleftrightarrow> is_Rejected ?p"
    unfolding g by (cases ?p) simp_all
  have f: "is_Fulfilled (getConfirms db ord this s) \<longleftrightarrow> is_Fulfilled ?p"
    unfolding g by (cases ?p) simp_all
  have e: "getConfirms db ord this s = Rejected err \<longleftrightarrow> ?p = Rejected err"
    unfolding g by (cases ?p) simp_all
  show ?thesis
    by (simp only: r f e Promise_all_is_Rejected Promise_all_is_Fulfilled
        Promise_all_Rejected_iff)
qed

theorem getConfirms_rejects_iff_read_fails_witness:
  "is_Rejected (confirms_getByEvent (memory_db True True) sample_event sample_store)
   \<and> is_Rejected (events_getWaiting (memory_db True True) sample_event sample_store)
   \<and> getConfirms (memory_db True True) FirstThenSecond sample_event sample_store
       = Rejected ''confirms: unavailable''
   \<and> getConfirms (memory_db True True) SecondThenFirst sample_event sample_store
       = Rejected ''events: unavailable''
   \<and> getConfirms (memory_db True False) FirstThenSecond sample_event sample_store
       = Rejected ''events: unavailable''
   \<and> \<not> is_Fulfilled (getConfirms (memory_db True False) FirstThenSecond sample_event
                          sample_store)"
  using getConfirms_rejects_iff_read_fails
      [of "memory_db True True" FirstThenSecond sample_event sample_store
          "''confirms: unavailable''"]
    getConfirms_rejects_iff_read_fails
      [of "memory_db True True" SecondThenFirst sample_event sample_store
          "''events: unavailable''"]
    getConfirms_rejects_iff_read_fails
      [of "memory_db True False" FirstThenSecond sample_event sample_store
          "''events: unavailable''"]
  by (simp add: sample_defs first_rejection_def)

text \<open>
  C3 as stated, that the three lists are pairwise disjoint for every pair of store results,
  fails: with alice both on record as attending and on the waiting list of event 4, she
  is in \<open>confirmed\<close> and in \<open>waiting\<close>.
\<close>

theorem getConfirms_not_disjoint_counterexample:
  "getConfirms (memory_db False False) FirstThenSecond sample_event overlap_store
     = Fulfilled \<lparr>confirmed = [''alice'', ''carol''], rejected = [''bob''],
                  waiting = [''alice'', ''dave'']\<rparr>
   \<and> \<not> pairwise_disjoint \<lparr>confirmed = [''alice'', ''carol''], rejected = [''bob''],
                            waiting = [''alice'', ''dave'']\<rparr>"
proof -
  have h1: "confirms_getByEvent (memory_db False False) sample_event overlap_store
     = Fulfilled (Some [\<lparr>event = 4, user = ''alice'', attends = True\<rparr>,
                        \<lparr>event = 4, user = ''bob'', attends = False\<rparr>,
                        \<lparr>event = 4, user = ''carol'', attends = True\<rparr>])"
    by (simp add: sample_defs)
  have h2: "events_getWaiting (memory_db False False) sample_event overlap_store
     = Fulfilled (Some [''alice'', ''dave''])"
    by (simp add: sample_defs)
  show ?thesis
    by (simp add: getConfirms_Fulfilled [OF h1 h2] getConfirms_then_Some pairwise_disjoint_def)
qed

text \<open>
  C3, amended. When no user id is on record both with \<open>attends\<close> true and with \<open>attends\<close>
  false, and no user id of the waiting list is on record at all, the three lists of the
  view are pairwise disjoint.
\<close>

theorem getConfirms_disjoint_on_consistent_store:
  assumes "confirms_getByEvent db this s = Fulfilled cso"
    and "events_getWaiting db this s = Fulfilled wo"
    and "user ` {r \<in> set (case cso of None \<Rightarrow> [] | Some cs \<Rightarrow> cs). attends r}
         \<inter> user ` {r \<in> set (case cso of None \<Rightarrow> [] | Some cs \<Rightarrow> cs). \<not> attends r} = {}"
    and "set (case wo of None \<Rightarrow> [] | Some w \<Rightarrow> w)
         \<inter> user ` set (case cso of None \<Rightarrow> [] | Some cs \<Rightarrow> cs) = {}"
  shows "\<exists>v. getConfirms db ord this s = Fulfilled v \<and> pairwise_disjoint v"
proof (cases cso)
  case None
  with assms(1,2) show ?thesis
    by (simp add: getConfirms_Fulfilled getConfirms_then_None pairwise_disjoint_def)
next
  case (Some cs)
  let ?w = "case wo of None \<Rightarrow> [] | Some w \<Rightarrow> w"
  from Some assms(3) have a: "user ` {r \<in> set cs. attends r} \<inter> user ` {r \<in> set cs. \<not> attends r} = {}"
    by simp
  from Some assms(4) have b: "set ?w \<inter> user ` set cs = {}"
    by simp
  have c: "set (map user (filter attends cs)) = user ` {r \<in> set cs. attends r}"
    by simp
  have r: "set (map user (filter (\<lambda>r. \<not> attends r) cs)) = user ` {r \<in> set cs. \<not> attends r}"
    by simp
  have "user ` {r \<in> set cs. attends r} \<inter> set ?w = {}"
    using b by blast
  moreover have "user ` {r \<in> set cs. \<not> attends r} \<inter> set ?w = {}"
    using b by blast
  ultimately have "pairwise_disjoint (getConfirms_then (Some cs, wo))"
    using a by (simp only: getConfirms_then_Some pairwise_disjoint_def people.simps c r)
  with Some assms(1,2) show ?thesis
    by (simp add: getConfirms_Fulfilled)
qed

theorem getConfirms_disjoint_on_consistent_store_witness:
  "confirms_getByEvent (memory_db False False) sample_event sample_store
     = Fulfilled (Some [\<lparr>event = 4, user = ''alice'', attends = True\<rparr>,
                        \<lparr>event = 4, user = ''bob'', attends = False\<rparr>,
                        \<lparr>event = 4, user = ''carol'', attends = True\<rparr>])
   \<and> events_getWaiting (memory_db False False) sample_event sample_store
     = Fulfilled (Some [''dave'', ''erin''])
   \<and> user ` {r \<in> set [\<lparr>event = 4, user = ''alice'', attends = True\<rparr>,
                        \<lparr>event = 4, user = ''bob'', attends = False\<rparr>,
                        \<lparr>event = 4, user = ''carol'', attends = True\<rparr>]. attends r}
       \<inter> user ` {r \<in> set [\<lparr>event = 4, user = ''alice'', attends = True\<rparr>,
                        \<lparr>event = 4, user = ''bob'', attends = False\<rparr>,
                        \<lparr>event = 4, user = ''carol'', attends = True\<rparr>]. \<not> attends r} = {}
   \<and> set [''dave'', ''erin'']
       \<inter> user ` set [\<lparr>event = 4, user = ''alice'', attends = True\<rparr>,
                        \<lparr>event = 4, user = ''bob'', attends = False\<rparr>,
                        \<lparr>event = 4, user = ''carol'', attends = True\<rparr>] = {}
   \<and> (\<exists>v. getConfirms (memory_db False False) FirstThenSecond sample_event sample_store
             = Fulfilled v \<and> pairwise_disjoint v)"
proof -
  let ?rows = "[\<lparr>event = 4, user = ''alice'', attends = True\<rparr>,
                \<lparr>event = 4, user = ''bob'', attends = False\<rparr>,
                \<lparr>event = 4, user = ''carol'', attends = True\<rparr>]"
  have h1: "confirms_getByEvent (memory_db False False) sample_event sample_store
     = Fulfilled (Some ?rows)"
    by (simp add: sample_defs)
  have h2: "events_getWaiting (memory_db False False) sample_event sample_store
     = Fulfilled (Some [''dave'', ''erin''])"
    by (simp add: sample_defs)
  have "user ` {r \<in> set ?rows. attends r} = set (map user (filter attends ?rows))"
    by (simp only: set_map set_filter)
  then have c: "user ` {r \<in> set ?rows. attends r} = {''alice'', ''carol''}"
    by simp
  have "user ` {r \<in> set ?rows. \<not> attends r} = set (map user (filter (\<lambda>r. \<not> attends r) ?rows))"
    by (simp only: set_map set_filter)
  then have r: "user ` {r \<in> set ?rows. \<not> attends r} = {''bob''}"
    by simp
  have h3: "user ` {r \<in> set ?rows. attends r} \<inter> user ` {r \<in> set ?rows. \<not> attends r} = {}"
    by (simp only: c r) simp
  have h4: "set [''dave'', ''erin''] \<inter> user ` set ?rows = {}"
    by simp
  have "\<exists>v. getConfirms (memory_db False False) FirstThenSecond sample_event sample_store
             = Fulfilled v \<and> pairwise_disjoint v"
    by (rule getConfirms_disjoint_on_consistent_store [OF h1 h2]) (simp_all only: option.case h3 h4)
  with h1 h2 h3 h4 show ?thesis by blast
qed

subsection \<open>deleteEvent\<close>

text \<open>
  C2. deleteEvent runs both deletions, in either order: the store it leaves is the store
  left by the second deletion run on the store left by the first, with nothing undone.
  It is fulfilled exactly when both deletions are, and rejected exactly when one of them
  is.
\<close>

theorem deleteEvent_no_rollback:
  "(let e = events_deleteEvent db (id_ev this) s;
        c = confirms_deleteByEvent db (id_ev this) (snd e);
        d = deleteEvent db FirstThenSecond ord this s
    in snd d = snd c
       \<and> (is_Fulfilled (fst d) \<longleftrightarrow> is_Fulfilled (fst e) \<and> is_Fulfilled (fst c))
       \<and> (is_Rejected (fst d) \<longleftrightarrow> is_Rejected (fst e) \<or> is_Rejected (fst c)))
   \<and> (let c = confirms_deleteByEvent db (id_ev this) s;
        e = events_deleteEvent db (id_ev this) (snd c);
        d = deleteEvent db SecondThenFirst ord this s
    in snd d = snd e
       \<and> (is_Fulfilled (fst d) \<longleftrightarrow> is_Fulfilled (fst e) \<and> is_Fulfilled (fst c))
       \<and> (is_Rejected (fst d) \<longleftrightarrow> is_Rejected (fst e) \<or> is_Rejected (fst c)))"
  by (simp add: deleteEvent_def Let_def split_beta Promise_all_is_Fulfilled
      Promise_all_is_Rejected)

text \<open>
  The scenario of the specification: the event deletion succeeds, the confirm deletion
  fails. The call is rejected, event 4 is gone from the store and its ConfirmRecords are
  all still there.
\<close>

theorem deleteEvent_no_rollback_witness:
  "deleteEvent (memory_db False True) FirstThenSecond SecondThenFirst sample_event sample_store
     = (Rejected ''confirms: unavailable'',
        sample_store\<lparr>event_rows := [5], waiting_rows := []\<rparr>)
   \<and> events_deleteEvent (memory_db False True) 4 sample_store
     = (Fulfilled (), sample_store\<lparr>event_rows := [5], waiting_rows := []\<rparr>)
   \<and> fst (confirms_deleteByEvent (memory_db False True) 4
            (sample_store\<lparr>event_rows := [5], waiting_rows := []\<rparr>))
     = Rejected ''confirms: unavailable''
   \<and> is_Rejected (fst (deleteEvent (memory_db False True) FirstThenSecond SecondThenFirst
                         sample_event sample_store))
   \<and> 4 \<notin> set (event_rows (snd (deleteEvent (memory_db False True) FirstThenSecond
                                    SecondThenFirst sample_event sample_store)))
   \<and> confirm_rows (snd (deleteEvent (memory_db False True) FirstThenSecond
                                    SecondThenFirst sample_event sample_store))
     = confirm_rows sample_store"
  using deleteEvent_no_rollback
    [of "memory_db False True" sample_event sample_store SecondThenFirst]
  by (simp add: deleteEvent_def sample_defs Promise_all_def)

end
